theory Spec2Isabelle
  imports Complex_Main "HOL-Library.Word" "HOL-Library.Multiset" "HOL-Library.AList"
    "HOL-Library.Option_ord"
begin

section \<open>Data model\<close>

text \<open>
  The matcher of \<^verbatim>\<open>business/matcher.go\<close> works on orders, books and twins of the
  package \<^verbatim>\<open>model\<close>. A token is a \<^verbatim>\<open>common.Address\<close>, twenty bytes; amounts are
  \<^verbatim>\<open>*big.Int\<close>, unbounded signed integers. Go's \<^verbatim>\<open>error\<close> values are kept as their
  message text.

  Modelled from the spec: the declarations of \<^verbatim>\<open>model.Order\<close>, \<^verbatim>\<open>model.Twin\<close> and
  \<^verbatim>\<open>Book\<close> are not part of the sources at hand. The records have the fields the
  matcher reads and writes, with the meaning the specification gives them; the two sides
  of a book are lists of orders.
\<close>

type_synonym Address = "160 word"

type_synonym error = string

record Order =
  BuyToken :: Address
  SellToken :: Address
  BuyAmount :: int
  SellAmount :: int

record Book =
  Base :: Address
  Quote :: Address
  bids :: "Order list"
  asks :: "Order list"

record Fill =
  Token :: Address
  Amount :: int

record Twin =
  First :: Fill
  Second :: Fill
  Cost :: int

subsection \<open>Order and Book operations\<close>

text \<open>
  Modelled from the spec: \<^verbatim>\<open>Order.Rate\<close> is not part of the sources at hand. The
  rate is the sell amount divided by the buy amount, an exact fraction, and a buy amount
  other than zero is needed to compute it: with a zero buy amount there is no rate
  (\<open>None\<close>), and the Go expression that asks for it does not return.
\<close>

definition Rate :: "Order \<Rightarrow> rat option" where
  "Rate ord = (if BuyAmount ord = 0 then None
               else Some (of_int (SellAmount ord) / of_int (BuyAmount ord)))"

datatype book_error = EmptyBook

text \<open>
  Modelled from the spec: \<^verbatim>\<open>Book.AddBid\<close>, \<^verbatim>\<open>Book.AddAsk\<close>,
  \<^verbatim>\<open>Book.HighestBid\<close> and \<^verbatim>\<open>Book.LowestAsk\<close> are not part of the sources at
  hand. Insertion keeps the orders in insertion order; extraction removes and returns the
  best order, the earliest inserted one among equals, and fails with \<open>EmptyBook\<close> on an
  empty side. An order without a rate compares below every order that has one.
\<close>

definition AddBid :: "Order \<Rightarrow> Book \<Rightarrow> Book" where
  "AddBid ord book = book\<lparr>bids := bids book @ [ord]\<rparr>"

definition AddAsk :: "Order \<Rightarrow> Book \<Rightarrow> Book" where
  "AddAsk ord book = book\<lparr>asks := asks book @ [ord]\<rparr>"

fun best :: "(Order \<Rightarrow> Order \<Rightarrow> bool) \<Rightarrow> Order \<Rightarrow> Order list \<Rightarrow> Order" where
  "best better cur [] = cur"
| "best better cur (x # xs) = best better (if better x cur then x else cur) xs"

definition HighestBid :: "Book \<Rightarrow> book_error + (Order \<times> Book)" where
  "HighestBid book =
     (case bids book of
        [] \<Rightarrow> Inl EmptyBook
      | x # xs \<Rightarrow>
          (let bid = best (\<lambda>new cur. Rate cur < Rate new) x xs
           in Inr (bid, book\<lparr>bids := remove1 bid (bids book)\<rparr>)))"

definition LowestAsk :: "Book \<Rightarrow> book_error + (Order \<times> Book)" where
  "LowestAsk book =
     (case asks book of
        [] \<Rightarrow> Inl EmptyBook
      | x # xs \<Rightarrow>
          (let ask = best (\<lambda>new cur. Rate new < Rate cur) x xs
           in Inr (ask, book\<lparr>asks := remove1 ask (asks book)\<rparr>)))"

subsection \<open>Big integers\<close>

text \<open>\<^verbatim>\<open>Max\<close> of the source: the maximum of three big integers, by two tests.\<close>

definition Max_3 :: "int \<Rightarrow> int \<Rightarrow> int \<Rightarrow> int" where
  "Max_3 x y z =
     (if x \<ge> y \<and> x \<ge> z then x
      else if y \<ge> x \<and> y \<ge> z then y
      else z)"

text \<open>
  \<^verbatim>\<open>(*big.Int).Div\<close> of Go's standard library: Euclidean division (the remainder is
  never negative), and a run-time panic (\<open>None\<close>) for a zero divisor.
\<close>

definition big_Div :: "int \<Rightarrow> int \<Rightarrow> int option" where
  "big_Div x y =
     (if y = 0 then None
      else if 0 < y then Some (x div y)
      else Some (- (x div (- y))))"

text \<open>
  Truncating division, the quotient rounded towards zero, as the specification words the
  conversion of the quote amount.
\<close>

definition trunc_div :: "int \<Rightarrow> int \<Rightarrow> int" where
  "trunc_div x y = sgn x * sgn y * (\<bar>x\<bar> div \<bar>y\<bar>)"

section \<open>Collaborators and effects\<close>

text \<open>
  The matcher talks to a logger, to the market (\<^verbatim>\<open>Atomic\<close> extends \<^verbatim>\<open>Market\<close>) and
  to a wallet. What the collaborators answer is outside the program: the answer to a call
  is a function of the number of calls made before it, so that any sequence of answers can
  be given. The effects of the program on them are recorded in a \<open>World\<close>: the calls made
  and the lines logged, in order. A call that returns no error returns a value: nil
  pointers in place of numbers or orders are left out of the model.
\<close>

datatype level = Infof | Warningf | Errorf

datatype arg = ABook Book | AAddr Address | AInt int | ANat nat | AErr error

type_synonym log_entry = "level \<times> string \<times> arg list"

record World =
  orders_calls :: nat
  balance_calls :: "Address list"
  wallet_calls :: "Address list"
  logged :: "log_entry list"

record Matcher =
  atomic_Orders :: "nat \<Rightarrow> error + Order list"
  atomic_Balance :: "nat \<Rightarrow> Address \<Rightarrow> error + int"
  wallet_Balance :: "nat \<Rightarrow> Address \<Rightarrow> error + int"
  threshold :: int

definition logf :: "level \<Rightarrow> string \<Rightarrow> arg list \<Rightarrow> World \<Rightarrow> World" where
  "logf lv fmt args w = w\<lparr>logged := logged w @ [(lv, fmt, args)]\<rparr>"

definition Orders :: "Matcher \<Rightarrow> World \<Rightarrow> World \<times> (error + Order list)" where
  "Orders m w = (w\<lparr>orders_calls := Suc (orders_calls w)\<rparr>, atomic_Orders m (orders_calls w))"

definition Balance :: "Matcher \<Rightarrow> World \<Rightarrow> Address \<Rightarrow> World \<times> (error + int)" where
  "Balance m w token =
     (w\<lparr>balance_calls := balance_calls w @ [token]\<rparr>,
      atomic_Balance m (length (balance_calls w)) token)"

definition WalletBalance :: "Matcher \<Rightarrow> World \<Rightarrow> Address \<Rightarrow> World \<times> (error + int)" where
  "WalletBalance m w token =
     (w\<lparr>wallet_calls := wallet_calls w @ [token]\<rparr>,
      wallet_Balance m (length (wallet_calls w)) token)"

section \<open>The book builder: getBooks\<close>

text \<open>
  The map \<^verbatim>\<open>bookSet\<close> is keyed by the two tokens' \<^verbatim>\<open>Hex()\<close> texts put together.
  \<^verbatim>\<open>Hex()\<close> of an address has a fixed length, so the key determines the ordered pair
  of tokens and the pair is taken as the key. The map is an association list in order of
  registration; Go leaves the order in which the final loop reads the map open, and
  nothing below depends on it.
\<close>

type_synonym bookSet = "((Address \<times> Address) \<times> Book) list"

definition placeOrder :: "bookSet \<Rightarrow> Order \<Rightarrow> bookSet" where
  "placeOrder bookSet ord =
     (let bidPair = (BuyToken ord, SellToken ord);
          askPair = (SellToken ord, BuyToken ord)
      in case map_of bookSet bidPair of
           Some bidBook \<Rightarrow> AList.update bidPair (AddBid ord bidBook) bookSet
         | None \<Rightarrow>
             (case map_of bookSet askPair of
                Some askBook \<Rightarrow> AList.update askPair (AddAsk ord askBook) bookSet
              | None \<Rightarrow>
                  AList.update bidPair
                    (AddBid ord \<lparr>Base = BuyToken ord, Quote = SellToken ord, bids = [], asks = []\<rparr>)
                    bookSet))"

definition getBooks :: "Matcher \<Rightarrow> World \<Rightarrow> World \<times> (error + Book list)" where
  "getBooks m w =
     (case Orders m w of
        (w1, Inl err) \<Rightarrow>
          (w1, Inl (''could not retrieve orders from market ('' @ err @ '')''))
      | (w1, Inr orders) \<Rightarrow> (w1, Inr (map snd (foldl placeOrder [] orders))))"

text \<open>The orders a book holds, and the orders a list of books holds, with multiplicity.\<close>

definition orders_of :: "Book \<Rightarrow> Order multiset" where
  "orders_of book = mset (bids book) + mset (asks book)"

definition all_orders :: "Book list \<Rightarrow> Order multiset" where
  "all_orders books = sum_list (map orders_of books)"

text \<open>
  What the builder keeps true of every registered book: it is registered under its own
  (base, quote) pair, its bids buy the base for the quote, and its asks sell the base for
  the quote.
\<close>

definition entry_ok :: "(Address \<times> Address) \<Rightarrow> Book \<Rightarrow> bool" where
  "entry_ok k book =
     (k = (Base book, Quote book)
      \<and> list_all (\<lambda>ord. BuyToken ord = Base book \<and> SellToken ord = Quote book) (bids book)
      \<and> list_all (\<lambda>ord. SellToken ord = Base book \<and> BuyToken ord = Quote book) (asks book))"

definition oriented :: "bookSet \<Rightarrow> bool" where
  "oriented bs = list_all (\<lambda>(k, book). entry_ok k book) bs"

section \<open>The arbitrage matcher\<close>

text \<open>The two candidate sizes and the conversion of the quote size, as the loop body computes them.\<close>

definition baseAmount :: "int \<Rightarrow> Order \<Rightarrow> Order \<Rightarrow> int" where
  "baseAmount baseAvailable bid ask = Max_3 baseAvailable (BuyAmount bid) (SellAmount ask)"

definition quoteAmount :: "int \<Rightarrow> Order \<Rightarrow> Order \<Rightarrow> int" where
  "quoteAmount quoteAvailable bid ask = Max_3 quoteAvailable (SellAmount bid) (BuyAmount ask)"

definition quoteAsBase :: "int \<Rightarrow> Order \<Rightarrow> int option" where
  "quoteAsBase quoteAmt ask = big_Div (quoteAmt * SellAmount ask) (BuyAmount ask)"

text \<open>
  One pass through the body of the inner \<^verbatim>\<open>for\<close> loop. \<open>Next\<close>: the body ran to its
  end and the loop goes round again with the book as the extractions left it. \<open>Leave\<close>:
  the book is done with (\<^verbatim>\<open>break\<close> or \<^verbatim>\<open>continue BookLoop\<close>). \<open>Crash\<close>: a run-time
  panic. The slice \<^verbatim>\<open>twins\<close> is in scope all along and is passed through.
\<close>

datatype step = Next World "Twin list" Book | Leave World "Twin list" | Crash

definition bookStep :: "Matcher \<Rightarrow> World \<Rightarrow> Twin list \<Rightarrow> Book \<Rightarrow> step" where
  "bookStep m w twins book =
     (case HighestBid book of
        Inl err \<Rightarrow> Leave w twins
      | Inr (bid, book1) \<Rightarrow>
     (case LowestAsk book1 of
        Inl err \<Rightarrow> Leave w twins
      | Inr (ask, book2) \<Rightarrow>
     (case Rate bid of None \<Rightarrow> Crash | Some bidRate \<Rightarrow>
     (case Rate ask of None \<Rightarrow> Crash | Some askRate \<Rightarrow>
        if bidRate \<le> askRate then Leave w twins
        else if BuyToken bid \<noteq> SellToken ask
          then Leave (logf Errorf ''base token mismatch in book: %v'' [ABook book2] w) twins
        else if SellToken bid \<noteq> BuyToken ask
          then Leave (logf Errorf ''quote token mismatch in book: %v'' [ABook book2] w) twins
        else
     (case Balance m w (BuyToken bid) of
        (w1, Inl err) \<Rightarrow>
          Leave (logf Errorf ''could not get balance for base token: %v (%v)''
                   [AAddr (BuyToken bid), AErr err] w1) twins
      | (w1, Inr baseAvailable) \<Rightarrow>
     (case Balance m w1 (SellToken bid) of
        (w2, Inl err) \<Rightarrow>
          Leave (logf Errorf ''could not get balance for quote token: %v (%v)''
                   [AAddr (SellToken bid), AErr err] w2) twins
      | (w2, Inr quoteAvailable) \<Rightarrow>
     (case quoteAsBase (quoteAmount quoteAvailable bid ask) ask of
        None \<Rightarrow> Crash
      | Some qab \<Rightarrow>
          if baseAmount baseAvailable bid ask = 0 \<and> qab = 0
          then Leave (logf Warningf ''can't trade marginal amounts: %v & %v''
                        [AInt (baseAmount baseAvailable bid ask),
                         AInt (quoteAmount quoteAvailable bid ask)] w2) twins
          else Next w2 twins book2)))))))"

text \<open>
  Extraction takes one order out of its side and leaves the rest of the book alone, so a
  pass that reaches its end has taken one bid and one ask out of the book.
\<close>

lemma best_mem: "best better cur xs \<in> set (cur # xs)"
  by (induction xs arbitrary: cur) auto

lemma HighestBid_Inr:
  assumes "HighestBid book = Inr (bid, book1)"
  shows "bid \<in> set (bids book) \<and> bids book1 = remove1 bid (bids book) \<and> asks book1 = asks book
         \<and> Base book1 = Base book \<and> Quote book1 = Quote book"
proof (cases "bids book")
  case Nil
  with assms show ?thesis by (simp add: HighestBid_def)
next
  case (Cons x xs)
  with assms best_mem[of "\<lambda>new cur. Rate cur < Rate new" x xs] show ?thesis
    by (auto simp: HighestBid_def Let_def)
qed

lemma LowestAsk_Inr:
  assumes "LowestAsk book = Inr (ask, book1)"
  shows "ask \<in> set (asks book) \<and> asks book1 = remove1 ask (asks book) \<and> bids book1 = bids book
         \<and> Base book1 = Base book \<and> Quote book1 = Quote book"
proof (cases "asks book")
  case Nil
  with assms show ?thesis by (simp add: LowestAsk_def)
next
  case (Cons x xs)
  with assms best_mem[of "\<lambda>new cur. Rate new < Rate cur" x xs] show ?thesis
    by (auto simp: LowestAsk_def Let_def)
qed

lemma bookStep_Next:
  assumes "bookStep m w twins book = Next w' twins' book'"
  shows "\<exists>bid ask book1. HighestBid book = Inr (bid, book1) \<and> LowestAsk book1 = Inr (ask, book')
           \<and> twins' = twins"
  using assms unfolding bookStep_def
  by (auto split: sum.splits prod.splits option.splits if_splits)

lemma bookStep_Next_size:
  assumes "bookStep m w twins book = Next w' twins' book'"
  shows "Suc (length (bids book')) = length (bids book) \<and> Suc (length (asks book')) = length (asks book)"
proof -
  from bookStep_Next[OF assms] obtain bid ask book1 where
    h: "HighestBid book = Inr (bid, book1)" and l: "LowestAsk book1 = Inr (ask, book')" by blast
  from HighestBid_Inr[OF h] LowestAsk_Inr[OF l] show ?thesis
    by (auto simp: length_remove1 dest: length_pos_if_in_set)
qed

text \<open>
  The inner \<^verbatim>\<open>for\<close> loop on one book. \<open>Panic\<close>: the Go function does not return.
\<close>

datatype 'a outcome = Returned 'a | Panic

function matchLoop :: "Matcher \<Rightarrow> World \<Rightarrow> Twin list \<Rightarrow> Book \<Rightarrow> (World \<times> Twin list) outcome" where
  "matchLoop m w twins book =
     (case bookStep m w twins book of
        Next w' twins' book' \<Rightarrow> matchLoop m w' twins' book'
      | Leave w' twins' \<Rightarrow> Returned (w', twins')
      | Crash \<Rightarrow> Panic)"
  by pat_completeness auto
termination
proof (relation "measure (\<lambda>(m, w, twins, book). length (bids book) + length (asks book))")
  show "wf (measure (\<lambda>(m, w, twins, book). length (bids book) + length (asks book)))" by simp
next
  fix m w twins book w' twins' book'
  assume "bookStep m w twins book = Next w' twins' book'"
  from bookStep_Next_size[OF this]
  show "((m, w', twins', book'), (m, w, twins, book))
        \<in> measure (\<lambda>(m, w, twins, book). length (bids book) + length (asks book))"
    by simp
qed


text \<open>The loop labelled \<^verbatim>\<open>BookLoop\<close>, over the books, and the function around it.\<close>

fun BookLoop :: "Matcher \<Rightarrow> World \<Rightarrow> Twin list \<Rightarrow> Book list \<Rightarrow> (World \<times> Twin list) outcome" where
  "BookLoop m w twins [] = Returned (w, twins)"
| "BookLoop m w twins (book # books) =
     (case matchLoop m w twins book of
        Panic \<Rightarrow> Panic
      | Returned (w', twins') \<Rightarrow> BookLoop m w' twins' books)"

definition arbitrage :: "Matcher \<Rightarrow> World \<Rightarrow> Book list \<Rightarrow> (World \<times> Twin list \<times> error option) outcome" where
  "arbitrage m w books =
     (case BookLoop m w [] books of
        Panic \<Rightarrow> Panic
      | Returned (w', twins) \<Rightarrow> Returned (w', twins, None))"

section \<open>The scheduling loop: run\<close>

text \<open>
  The totals of a cycle: the cost, and per token the net change. The map \<^verbatim>\<open>changes\<close>
  is an association list in order of first use (Go leaves the order of the report loop
  open).
\<close>

type_synonym changes = "(Address \<times> int) list"

definition addChange :: "Address \<Rightarrow> int \<Rightarrow> changes \<Rightarrow> changes" where
  "addChange token amount chs =
     (case map_of chs token of
        None \<Rightarrow> AList.update token (0 + amount) chs
      | Some first \<Rightarrow> AList.update token (first + amount) chs)"

fun sumTwins :: "Twin list \<Rightarrow> int \<times> changes \<Rightarrow> int \<times> changes" where
  "sumTwins [] acc = acc"
| "sumTwins (twin # twins) (cost, chs) =
     sumTwins twins
       (cost + Cost twin,
        addChange (Token (Second twin)) (Amount (Second twin))
          (addChange (Token (First twin)) (Amount (First twin)) chs))"

fun reportChanges :: "Matcher \<Rightarrow> World \<Rightarrow> changes \<Rightarrow> World" where
  "reportChanges m w [] = w"
| "reportChanges m w ((address, change) # rest) =
     (case WalletBalance m w address of
        (w1, Inl err) \<Rightarrow>
          reportChanges m
            (logf Warningf ''could not get current balance: %v (%v)'' [AAddr address, AErr err] w1)
            rest
      | (w1, Inr balance) \<Rightarrow>
          reportChanges m
            (logf Infof ''%v: %v (%v)'' [AAddr address, AInt balance, AInt change] w1)
            rest)"

text \<open>The body of the \<^verbatim>\<open>refresh\<close> case of the \<^verbatim>\<open>select\<close>: one cycle.\<close>

definition cycle :: "Matcher \<Rightarrow> World \<Rightarrow> World outcome" where
  "cycle m w =
     (case getBooks m w of
        (w1, Inl err) \<Rightarrow> Returned (logf Errorf ''could not get orders (%v)'' [AErr err] w1)
      | (w1, Inr books) \<Rightarrow>
     (case arbitrage m w1 books of
        Panic \<Rightarrow> Panic
      | Returned (w2, twins, Some err) \<Rightarrow>
          Returned (logf Errorf ''could not compute arbitrage orders (%v)'' [AErr err] w2)
      | Returned (w2, twins, None) \<Rightarrow>
          (case sumTwins twins (0, []) of
             (cost, chs) \<Rightarrow>
               Returned
                 (logf Infof ''total cost: %v wei'' [AInt cost]
                    (reportChanges m
                       (logf Infof ''executed %v twins for cost of %v wei'' [ANat (length twins)] w2)
                       chs)))))"

text \<open>
  The \<^verbatim>\<open>select\<close> of \<^verbatim>\<open>run\<close> takes one event at a time: the stop signal or a tick
  of the timer. \<open>run\<close> handles a finite sequence of events, as the \<^verbatim>\<open>select\<close> delivers
  them: \<open>Exited\<close> after \<^verbatim>\<open>break Loop\<close>, \<open>Waiting\<close> when the loop is back at the
  \<^verbatim>\<open>select\<close> with no event left, \<open>Crashed\<close> after a panic.
\<close>

datatype event = Done | Refresh

datatype run_state = Waiting World | Exited World | Crashed

fun run :: "Matcher \<Rightarrow> World \<Rightarrow> event list \<Rightarrow> run_state" where
  "run m w [] = Waiting w"
| "run m w (Done # evs) = Exited w"
| "run m w (Refresh # evs) =
     (case cycle m w of
        Panic \<Rightarrow> Crashed
      | Returned w' \<Rightarrow> run m w' evs)"

section \<open>Books whose orders all have a rate, and the loop with a bound\<close>

text \<open>A book is \<open>rated\<close> when every order in it has a buy amount other than zero.\<close>

definition rated :: "Book \<Rightarrow> bool" where
  "rated book =
     (list_all (\<lambda>ord. BuyAmount ord \<noteq> 0) (bids book)
      \<and> list_all (\<lambda>ord. BuyAmount ord \<noteq> 0) (asks book))"

text \<open>
  A market is rated when every list of orders it returns, at whatever call, holds only
  orders with a buy amount other than zero.
\<close>

definition rated_market :: "Matcher \<Rightarrow> bool" where
  "rated_market m =
     (\<forall>n orders. atomic_Orders m n = Inr orders \<longrightarrow>
        list_all (\<lambda>ord. BuyAmount ord \<noteq> 0) orders)"

text \<open>
  The inner loop again, with a bound on the number of passes: \<open>None\<close> when the bound is
  used up before the loop is left.
\<close>

fun matchFuel :: "nat \<Rightarrow> Matcher \<Rightarrow> World \<Rightarrow> Twin list \<Rightarrow> Book \<Rightarrow> (World \<times> Twin list) outcome option" where
  "matchFuel 0 m w twins book = None"
| "matchFuel (Suc n) m w twins book =
     (case bookStep m w twins book of
        Next w' twins' book' \<Rightarrow> matchFuel n m w' twins' book'
      | Leave w' twins' \<Rightarrow> Some (Returned (w', twins'))
      | Crash \<Rightarrow> Some Panic)"

section \<open>Worked inputs\<close>

text \<open>
  Three tokens, an empty world, a market that returns a fixed list of orders and a balance
  of zero for every token, and a market that cannot be reached. \<open>bid_half\<close> buys 100 of
  token A for 50 of token B, rate 1/2; \<open>ask_low\<close> sells 30 of token A for 80 of token B,
  rate 3/8; \<open>ask_scenario1\<close> sells 80 of token A for 30 of token B, rate 8/3;
  \<open>bid_low\<close> has rate 3/10 and \<open>ask_high\<close> rate 1/2; \<open>ask_wrong\<close> sells token C;
  \<open>ask_none\<close> and \<open>order_zero_buy\<close> have a zero buy amount; \<open>bid_neg\<close> and
  \<open>ask_neg\<close> have negative amounts and \<open>ask_free\<close> sells nothing.
  \<open>matcher_quote_one\<close> has a balance of one of token B and of zero of any other token.
\<close>

definition tokenA :: Address where
  "tokenA = 1"

definition tokenB :: Address where
  "tokenB = 2"

definition tokenC :: Address where
  "tokenC = 3"

definition world0 :: World where
  "world0 = \<lparr>orders_calls = 0, balance_calls = [], wallet_calls = [], logged = []\<rparr>"

definition bid_half :: Order where
  "bid_half = \<lparr>BuyToken = tokenA, SellToken = tokenB, BuyAmount = 100, SellAmount = 50\<rparr>"

definition ask_low :: Order where
  "ask_low = \<lparr>BuyToken = tokenB, SellToken = tokenA, BuyAmount = 80, SellAmount = 30\<rparr>"

definition order_zero_buy :: Order where
  "order_zero_buy = \<lparr>BuyToken = tokenA, SellToken = tokenC, BuyAmount = 0, SellAmount = 7\<rparr>"

definition matcher_with :: "Order list \<Rightarrow> Matcher" where
  "matcher_with orders =
     \<lparr>atomic_Orders = (\<lambda>n. Inr orders), atomic_Balance = (\<lambda>n token. Inr 0),
      wallet_Balance = (\<lambda>n token. Inr 0), threshold = 30000\<rparr>"

definition matcher_down :: Matcher where
  "matcher_down =
     \<lparr>atomic_Orders = (\<lambda>n. Inl ''no connection''), atomic_Balance = (\<lambda>n token. Inr 0),
      wallet_Balance = (\<lambda>n token. Inr 0), threshold = 30000\<rparr>"

definition ask_none :: Order where
  "ask_none = \<lparr>BuyToken = tokenB, SellToken = tokenA, BuyAmount = 0, SellAmount = 0\<rparr>"

definition ask_scenario1 :: Order where
  "ask_scenario1 = \<lparr>BuyToken = tokenB, SellToken = tokenA, BuyAmount = 30, SellAmount = 80\<rparr>"

definition bid_low :: Order where
  "bid_low = \<lparr>BuyToken = tokenA, SellToken = tokenB, BuyAmount = 10, SellAmount = 3\<rparr>"

definition ask_high :: Order where
  "ask_high = \<lparr>BuyToken = tokenB, SellToken = tokenA, BuyAmount = 10, SellAmount = 5\<rparr>"

definition ask_wrong :: Order where
  "ask_wrong = \<lparr>BuyToken = tokenB, SellToken = tokenC, BuyAmount = 80, SellAmount = 30\<rparr>"

definition bid_neg :: Order where
  "bid_neg = \<lparr>BuyToken = tokenA, SellToken = tokenB, BuyAmount = - 4, SellAmount = - 2\<rparr>"

definition ask_free :: Order where
  "ask_free = \<lparr>BuyToken = tokenB, SellToken = tokenA, BuyAmount = 80, SellAmount = 0\<rparr>"

definition ask_neg :: Order where
  "ask_neg = \<lparr>BuyToken = tokenB, SellToken = tokenA, BuyAmount = - 80, SellAmount = - 1\<rparr>"

definition matcher_quote_one :: Matcher where
  "matcher_quote_one =
     \<lparr>atomic_Orders = (\<lambda>n. Inr []),
      atomic_Balance = (\<lambda>n token. if token = tokenB then Inr 1 else Inr 0),
      wallet_Balance = (\<lambda>n token. Inr 0), threshold = 30000\<rparr>"

definition book_of :: "Order list \<Rightarrow> Order list \<Rightarrow> Book" where
  "book_of bs as = \<lparr>Base = tokenA, Quote = tokenB, bids = bs, asks = as\<rparr>"

section \<open>Auxiliary facts\<close>

declare matchLoop.simps [simp del]

lemma tokens_distinct [simp]:
  "tokenA \<noteq> tokenB" "tokenB \<noteq> tokenA" "tokenA \<noteq> tokenC" "tokenC \<noteq> tokenA"
  "tokenB \<noteq> tokenC" "tokenC \<noteq> tokenB"
  by (simp_all add: tokenA_def tokenB_def tokenC_def)

lemma bid_half_fields [simp]:
  "BuyToken bid_half = tokenA" "SellToken bid_half = tokenB"
  "BuyAmount bid_half = 100" "SellAmount bid_half = 50"
  by (simp_all add: bid_half_def)

lemma ask_low_fields [simp]:
  "BuyToken ask_low = tokenB" "SellToken ask_low = tokenA"
  "BuyAmount ask_low = 80" "SellAmount ask_low = 30"
  by (simp_all add: ask_low_def)

lemma ask_none_fields [simp]:
  "BuyToken ask_none = tokenB" "SellToken ask_none = tokenA"
  "BuyAmount ask_none = 0" "SellAmount ask_none = 0"
  by (simp_all add: ask_none_def)

lemma ask_scenario1_fields [simp]:
  "BuyToken ask_scenario1 = tokenB" "SellToken ask_scenario1 = tokenA"
  "BuyAmount ask_scenario1 = 30" "SellAmount ask_scenario1 = 80"
  by (simp_all add: ask_scenario1_def)


lemma bid_low_fields [simp]:
  "BuyToken bid_low = tokenA" "SellToken bid_low = tokenB"
  "BuyAmount bid_low = 10" "SellAmount bid_low = 3"
  by (simp_all add: bid_low_def)

lemma ask_high_fields [simp]:
  "BuyToken ask_high = tokenB" "SellToken ask_high = tokenA"
  "BuyAmount ask_high = 10" "SellAmount ask_high = 5"
  by (simp_all add: ask_high_def)

lemma ask_wrong_fields [simp]:
  "BuyToken ask_wrong = tokenB" "SellToken ask_wrong = tokenC"
  "BuyAmount ask_wrong = 80" "SellAmount ask_wrong = 30"
  by (simp_all add: ask_wrong_def)

lemma bid_neg_fields [simp]:
  "BuyToken bid_neg = tokenA" "SellToken bid_neg = tokenB"
  "BuyAmount bid_neg = - 4" "SellAmount bid_neg = - 2"
  by (simp_all add: bid_neg_def)

lemma ask_free_fields [simp]:
  "BuyToken ask_free = tokenB" "SellToken ask_free = tokenA"
  "BuyAmount ask_free = 80" "SellAmount ask_free = 0"
  by (simp_all add: ask_free_def)

lemma ask_neg_fields [simp]:
  "BuyToken ask_neg = tokenB" "SellToken ask_neg = tokenA"
  "BuyAmount ask_neg = - 80" "SellAmount ask_neg = - 1"
  by (simp_all add: ask_neg_def)

lemma Balance_matcher_with [simp]:
  "Balance (matcher_with orders) w token = (w\<lparr>balance_calls := balance_calls w @ [token]\<rparr>, Inr 0)"
  by (simp add: Balance_def matcher_with_def)

lemma HighestBid_single: "HighestBid (book_of [b] as) = Inr (b, book_of [] as)"
  by (simp add: HighestBid_def book_of_def)

lemma LowestAsk_single: "LowestAsk (book_of bs [a]) = Inr (a, book_of bs [])"
  by (simp add: LowestAsk_def book_of_def)

subsection \<open>The book builder\<close>

lemma all_orders_update:
  "map_of al k = Some v \<Longrightarrow>
   all_orders (map snd (AList.update k v' al)) + orders_of v = all_orders (map snd al) + orders_of v'"
  by (induction al) (auto simp: all_orders_def split: if_splits)

lemma all_orders_update_new:
  "map_of al k = None \<Longrightarrow>
   all_orders (map snd (AList.update k v' al)) = all_orders (map snd al) + orders_of v'"
  by (induction al) (auto simp: all_orders_def split: if_splits)

lemma all_orders_placeOrder:
  "all_orders (map snd (placeOrder bs ord)) = all_orders (map snd bs) + {#ord#}"
proof (cases "map_of bs (BuyToken ord, SellToken ord)")
  case (Some b)
  from all_orders_update[OF Some, of "AddBid ord b"]
  show ?thesis using Some by (simp add: placeOrder_def orders_of_def AddBid_def)
next
  case None
  show ?thesis
  proof (cases "map_of bs (SellToken ord, BuyToken ord)")
    case (Some b)
    from all_orders_update[OF Some, of "AddAsk ord b"]
    show ?thesis using Some None by (simp add: placeOrder_def orders_of_def AddAsk_def)
  next
    case None2: None
    from all_orders_update_new[OF None]
    show ?thesis using None None2 by (simp add: placeOrder_def orders_of_def AddBid_def)
  qed
qed

lemma all_orders_foldl:
  "all_orders (map snd (foldl placeOrder bs orders)) = all_orders (map snd bs) + mset orders"
  by (induction orders arbitrary: bs) (simp_all add: all_orders_placeOrder)

lemma oriented_update:
  "oriented al \<Longrightarrow> entry_ok k v \<Longrightarrow> oriented (AList.update k v al)"
  by (induction al) (auto simp: oriented_def)

lemma oriented_lookup: "oriented al \<Longrightarrow> map_of al k = Some b \<Longrightarrow> entry_ok k b"
  by (induction al) (auto simp: oriented_def split: if_splits)

lemma oriented_placeOrder: "oriented bs \<Longrightarrow> oriented (placeOrder bs ord)"
proof -
  assume o: "oriented bs"
  show ?thesis
  proof (cases "map_of bs (BuyToken ord, SellToken ord)")
    case (Some b)
    from oriented_lookup[OF o Some] have "entry_ok (BuyToken ord, SellToken ord) (AddBid ord b)"
      by (simp add: entry_ok_def AddBid_def)
    from oriented_update[OF o this] show ?thesis using Some by (simp add: placeOrder_def)
  next
    case None
    show ?thesis
    proof (cases "map_of bs (SellToken ord, BuyToken ord)")
      case (Some b)
      from oriented_lookup[OF o Some] have "entry_ok (SellToken ord, BuyToken ord) (AddAsk ord b)"
        by (simp add: entry_ok_def AddAsk_def)
      from oriented_update[OF o this] show ?thesis using Some None by (simp add: placeOrder_def)
    next
      case None2: None
      have "entry_ok (BuyToken ord, SellToken ord)
         (AddBid ord \<lparr>Base = BuyToken ord, Quote = SellToken ord, bids = [], asks = []\<rparr>)"
        by (simp add: entry_ok_def AddBid_def)
      from oriented_update[OF o this] show ?thesis using None None2 by (simp add: placeOrder_def)
    qed
  qed
qed

lemma oriented_foldl: "oriented bs \<Longrightarrow> oriented (foldl placeOrder bs orders)"
  by (induction orders arbitrary: bs) (simp_all add: oriented_placeOrder)

lemma distinct_placeOrder: "distinct (map fst bs) \<Longrightarrow> distinct (map fst (placeOrder bs ord))"
  by (simp add: placeOrder_def Let_def distinct_update split: option.splits)

lemma distinct_foldl: "distinct (map fst bs) \<Longrightarrow> distinct (map fst (foldl placeOrder bs orders))"
  by (induction orders arbitrary: bs) (simp_all add: distinct_placeOrder)

subsection \<open>The matcher never touches the twins\<close>

lemma bookStep_twins:
  "bookStep m w twins book = Next w' twins' book' \<Longrightarrow> twins' = twins"
  "bookStep m w twins book = Leave w' twins' \<Longrightarrow> twins' = twins"
  unfolding bookStep_def
  by (auto split: sum.splits prod.splits option.splits if_splits)

lemma matchLoop_twins:
  "matchLoop m w twins book = Returned (w', twins') \<Longrightarrow> twins' = twins"
proof (induction m w twins book rule: matchLoop.induct)
  case (1 m w twins book)
  show ?case
  proof (cases "bookStep m w twins book")
    case (Next w1 twins1 book1)
    with "1.prems" have "matchLoop m w1 twins1 book1 = Returned (w', twins')"
      by (simp add: matchLoop.simps[of m w twins book])
    from "1.IH"[OF Next this] bookStep_twins(1)[OF Next] show ?thesis by simp
  next
    case (Leave w1 twins1)
    with "1.prems" bookStep_twins(2)[OF Leave] show ?thesis
      by (simp add: matchLoop.simps[of m w twins book])
  next
    case Crash
    with "1.prems" show ?thesis by (simp add: matchLoop.simps[of m w twins book])
  qed
qed

lemma BookLoop_twins:
  "BookLoop m w twins books = Returned (w', twins') \<Longrightarrow> twins' = twins"
proof (induction books arbitrary: w twins)
  case Nil
  then show ?case by simp
next
  case (Cons book books)
  show ?case
  proof (cases "matchLoop m w twins book")
    case (Returned r)
    obtain w1 twins1 where r: "r = (w1, twins1)" by (cases r)
    from Cons.prems Returned r have "BookLoop m w1 twins1 books = Returned (w', twins')" by simp
    from Cons.IH[OF this] matchLoop_twins[of m w twins book w1 twins1] Returned r
    show ?thesis by simp
  next
    case Panic
    with Cons.prems show ?thesis by simp
  qed
qed

subsection \<open>Rated books do not panic\<close>

lemma Rate_Some: "BuyAmount ord \<noteq> 0 \<Longrightarrow> \<exists>r. Rate ord = Some r"
  by (simp add: Rate_def)

lemma quoteAsBase_Some: "BuyAmount ask \<noteq> 0 \<Longrightarrow> quoteAsBase qa ask \<noteq> None"
  by (simp add: quoteAsBase_def big_Div_def)

lemma Rate_defined: "Rate ord = Some r \<Longrightarrow> BuyAmount ord \<noteq> 0"
  by (auto simp: Rate_def split: if_splits)

lemma bookStep_rated_no_Crash:
  assumes "rated book"
  shows "bookStep m w twins book \<noteq> Crash"
proof (cases "HighestBid book")
  case (Inl e)
  then show ?thesis by (simp add: bookStep_def)
next
  case (Inr p)
  obtain bid book1 where p: "p = (bid, book1)" by (cases p)
  note hb = HighestBid_Inr[OF Inr[unfolded p]]
  show ?thesis
  proof (cases "LowestAsk book1")
    case (Inl e)
    with Inr p show ?thesis by (simp add: bookStep_def)
  next
    case Inr2: (Inr q)
    obtain ask book2 where q: "q = (ask, book2)" by (cases q)
    note la = LowestAsk_Inr[OF Inr2[unfolded q]]
    from assms hb have "BuyAmount bid \<noteq> 0" by (auto simp: rated_def list_all_iff)
    then obtain rb where rb: "Rate bid = Some rb" using Rate_Some by blast
    from assms hb la have nz: "BuyAmount ask \<noteq> 0" by (auto simp: rated_def list_all_iff)
    then obtain ra where ra: "Rate ask = Some ra" using Rate_Some by blast
    show ?thesis
      using Inr p Inr2 q rb ra nz
      by (auto simp: bookStep_def quoteAsBase_def big_Div_def split: prod.splits sum.splits)
  qed
qed

lemma bookStep_rated_Next:
  assumes "rated book" and "bookStep m w twins book = Next w' twins' book'"
  shows "rated book'"
proof -
  from bookStep_Next[OF assms(2)] obtain bid ask book1 where
    h: "HighestBid book = Inr (bid, book1)" and l: "LowestAsk book1 = Inr (ask, book')" by blast
  from HighestBid_Inr[OF h] LowestAsk_Inr[OF l] assms(1) show ?thesis
    by (auto simp: rated_def list_all_iff dest: notin_set_remove1)
qed

lemma matchLoop_rated:
  "rated book \<Longrightarrow> \<exists>w'. matchLoop m w twins book = Returned (w', twins)"
proof (induction m w twins book rule: matchLoop.induct)
  case (1 m w twins book)
  show ?case
  proof (cases "bookStep m w twins book")
    case (Next w1 twins1 book1)
    from "1.IH"[OF Next bookStep_rated_Next[OF "1.prems" Next]] bookStep_twins(1)[OF Next] Next
    show ?thesis by (simp add: matchLoop.simps[of m w twins book])
  next
    case (Leave w1 twins1)
    with bookStep_twins(2)[OF Leave] show ?thesis
      by (simp add: matchLoop.simps[of m w twins book])
  next
    case Crash
    with bookStep_rated_no_Crash[OF "1.prems", of m w twins] show ?thesis by simp
  qed
qed

lemma BookLoop_rated:
  "list_all rated books \<Longrightarrow> \<exists>w'. BookLoop m w twins books = Returned (w', twins)"
proof (induction books arbitrary: w)
  case Nil
  then show ?case by simp
next
  case (Cons book books)
  from Cons.prems have "rated book" and rest: "list_all rated books" by simp_all
  from matchLoop_rated[OF this(1), of m w twins] obtain w1 where
    "matchLoop m w twins book = Returned (w1, twins)" by blast
  with Cons.IH[OF rest, of w1] show ?case by simp
qed

subsection \<open>Sizes, division, the scheduling loop, the bounded loop\<close>

lemma Max_3_ge: "x \<le> Max_3 x y z" "y \<le> Max_3 x y z" "z \<le> Max_3 x y z"
  by (auto simp: Max_3_def)

lemma big_Div_trunc: "0 \<le> x \<Longrightarrow> y \<noteq> 0 \<Longrightarrow> big_Div x y = Some (trunc_div x y)"
  by (cases "x = 0") (auto simp: big_Div_def trunc_div_def sgn_if)

lemma run_Exited_Done: "run m w evs = Exited w' \<Longrightarrow> Done \<in> set evs"
proof (induction evs arbitrary: w)
  case Nil
  then show ?case by simp
next
  case (Cons ev evs)
  show ?case
  proof (cases ev)
    case Done
    then show ?thesis by simp
  next
    case Refresh
    with Cons.prems obtain w1 where "cycle m w = Returned w1" "run m w1 evs = Exited w'"
      by (cases "cycle m w") simp_all
    from Cons.IH[OF this(2)] show ?thesis by simp
  qed
qed

lemma cycle_Panic:
  assumes "cycle m w = Panic"
  shows "\<exists>w1 books. getBooks m w = (w1, Inr books) \<and> arbitrage m w1 books = Panic"
proof -
  obtain w1 r where g: "getBooks m w = (w1, r)" by (cases "getBooks m w")
  show ?thesis
  proof (cases r)
    case (Inl e)
    with g assms show ?thesis by (simp add: cycle_def)
  next
    case (Inr books)
    with g assms have "arbitrage m w1 books = Panic"
      by (cases "arbitrage m w1 books") (auto simp: cycle_def split: option.splits prod.splits)
    with g Inr show ?thesis by simp
  qed
qed

lemma matchFuel_enough:
  "min (length (bids book)) (length (asks book)) < n \<Longrightarrow>
   matchFuel n m w twins book = Some (matchLoop m w twins book)"
proof (induction n arbitrary: w twins book)
  case 0
  then show ?case by simp
next
  case (Suc n)
  show ?case
  proof (cases "bookStep m w twins book")
    case (Next w1 twins1 book1)
    from bookStep_Next_size[OF Next] Suc.prems
    have "min (length (bids book1)) (length (asks book1)) < n" by auto
    from Suc.IH[OF this] Next show ?thesis
      by (simp add: matchLoop.simps[of m w twins book])
  next
    case (Leave w1 twins1)
    then show ?thesis by (simp add: matchLoop.simps[of m w twins book])
  next
    case Crash
    then show ?thesis by (simp add: matchLoop.simps[of m w twins book])
  qed
qed

subsection \<open>Euclidean division, and rated markets\<close>

lemma big_Div_Euclidean:
  assumes "y \<noteq> 0"
  shows "\<exists>d r. big_Div x y = Some d \<and> x = y * d + r \<and> 0 \<le> r \<and> r < \<bar>y\<bar>"
proof (cases "0 < y")
  case True
  then have "big_Div x y = Some (x div y) \<and> x = y * (x div y) + x mod y
             \<and> 0 \<le> x mod y \<and> x mod y < \<bar>y\<bar>"
    by (simp add: big_Div_def)
  then show ?thesis by blast
next
  case False
  define z where "z = - y"
  from False assms have neg: "0 < z" by (simp add: z_def)
  have "x = z * (x div z) + x mod z" by simp
  moreover have "z * (x div z) = y * (- (x div z))" by (simp add: z_def)
  ultimately have "x = y * (- (x div z)) + x mod z" by (simp only:)
  moreover from neg have "0 \<le> x mod z" and "x mod z < \<bar>y\<bar>"
    by (simp_all add: z_def)
  moreover from False assms have "big_Div x y = Some (- (x div z))"
    by (simp add: big_Div_def z_def)
  ultimately show ?thesis by blast
qed

lemma in_all_orders:
  "book \<in> set books \<Longrightarrow> ord \<in># orders_of book \<Longrightarrow> ord \<in># all_orders books"
  by (induction books) (auto simp: all_orders_def)

lemma foldl_placeOrder_rated:
  assumes "list_all (\<lambda>ord. BuyAmount ord \<noteq> 0) orders"
  shows "list_all rated (map snd (foldl placeOrder [] orders))"
proof -
  let ?books = "map snd (foldl placeOrder [] orders)"
  have all: "all_orders ?books = mset orders"
    using all_orders_foldl[of "[]" orders] by (simp add: all_orders_def)
  have "BuyAmount ord \<noteq> 0" if "book \<in> set ?books" and "ord \<in># orders_of book" for book ord
  proof -
    from in_all_orders[OF that] all have "ord \<in> set orders" by simp
    with assms show ?thesis by (simp add: list_all_iff)
  qed
  then have "rated book" if "book \<in> set ?books" for book
    using that unfolding rated_def list_all_iff orders_of_def by auto
  then show ?thesis unfolding list_all_iff by blast
qed

lemma cycle_rated_market:
  assumes "rated_market m"
  shows "\<exists>w'. cycle m w = Returned w'"
proof (cases "atomic_Orders m (orders_calls w)")
  case (Inl e)
  then show ?thesis by (simp add: cycle_def getBooks_def Orders_def)
next
  case (Inr orders)
  with assms have "list_all (\<lambda>ord. BuyAmount ord \<noteq> 0) orders"
    unfolding rated_market_def by blast
  from BookLoop_rated[OF foldl_placeOrder_rated[OF this],
      of m "w\<lparr>orders_calls := Suc (orders_calls w)\<rparr>" "[]"]
  obtain w2 where "BookLoop m (w\<lparr>orders_calls := Suc (orders_calls w)\<rparr>) []
      (map snd (foldl placeOrder [] orders)) = Returned (w2, [])" by blast
  with Inr show ?thesis by (simp add: cycle_def getBooks_def Orders_def arbitrage_def)
qed

lemma run_rated_market:
  assumes "rated_market m"
  shows "(Done \<in> set evs \<longrightarrow> (\<exists>w'. run m w evs = Exited w'))
         \<and> (Done \<notin> set evs \<longrightarrow> (\<exists>w'. run m w evs = Waiting w'))"
proof (induction evs arbitrary: w)
  case Nil
  then show ?case by simp
next
  case (Cons ev evs)
  show ?case
  proof (cases ev)
    case Done
    then show ?thesis by simp
  next
    case Refresh
    from cycle_rated_market[OF assms, of w] obtain w1 where "cycle m w = Returned w1" by blast
    with Refresh Cons.IH[of w1] show ?thesis by simp
  qed
qed

section \<open>Claims about the arbitrage matcher\<close>

text \<open>
  Claim C1, as the code has it. For a pair of extracted orders that cross (the bid's rate
  is strictly greater than the ask's), whose tokens align, for which both balance queries
  succeed and the base candidate or the converted quote candidate is not zero, the pass
  records no twin: the places where the orders would be executed are unimplemented
  placeholders. The pass reaches its end with the twins as they were, after the two
  balance queries, and the loop goes on with the rest of the book.
\<close>

theorem crossed_pair_records_no_twin:
  assumes "HighestBid book = Inr (bid, book1)" and "LowestAsk book1 = Inr (ask, book2)"
    and "Rate bid = Some bidRate" and "Rate ask = Some askRate" and "askRate < bidRate"
    and "BuyToken bid = SellToken ask" and "SellToken bid = BuyToken ask"
    and "Balance m w (BuyToken bid) = (w1, Inr baseAvailable)"
    and "Balance m w1 (SellToken bid) = (w2, Inr quoteAvailable)"
    and "baseAmount baseAvailable bid ask \<noteq> 0
         \<or> quoteAsBase (quoteAmount quoteAvailable bid ask) ask \<noteq> Some 0"
  shows "bookStep m w twins book = Next w2 twins book2
         \<and> matchLoop m w twins book = matchLoop m w2 twins book2"
proof -
  from quoteAsBase_Some[OF Rate_defined[OF assms(4)]] obtain q where
    q: "quoteAsBase (quoteAmount quoteAvailable bid ask) ask = Some q"
    by blast
  have "bookStep m w twins book = Next w2 twins book2"
    using assms q by (auto simp: bookStep_def)
  then show ?thesis by (simp add: matchLoop.simps[of m w twins book])
qed

theorem crossed_pair_records_no_twin_witness:
  "HighestBid (book_of [bid_half] [ask_low]) = Inr (bid_half, book_of [] [ask_low])
   \<and> LowestAsk (book_of [] [ask_low]) = Inr (ask_low, book_of [] [])
   \<and> Rate bid_half = Some (1/2) \<and> Rate ask_low = Some (3/8)
   \<and> baseAmount 0 bid_half ask_low = 100
   \<and> bookStep (matcher_with []) world0 [] (book_of [bid_half] [ask_low])
       = Next (world0\<lparr>balance_calls := [tokenA, tokenB]\<rparr>) [] (book_of [] [])"
proof -
  have h: "HighestBid (book_of [bid_half] [ask_low]) = Inr (bid_half, book_of [] [ask_low])"
    by (rule HighestBid_single)
  have l: "LowestAsk (book_of [] [ask_low]) = Inr (ask_low, book_of [] [])"
    by (rule LowestAsk_single)
  have rb: "Rate bid_half = Some (1/2)" by (simp add: Rate_def)
  have ra: "Rate ask_low = Some (3/8)" by (simp add: Rate_def)
  have lt: "(3/8 :: rat) < 1/2" by simp
  have t1: "BuyToken bid_half = SellToken ask_low" by simp
  have t2: "SellToken bid_half = BuyToken ask_low" by simp
  have b1: "Balance (matcher_with []) world0 (BuyToken bid_half)
              = (world0\<lparr>balance_calls := [tokenA]\<rparr>, Inr 0)"
    by (simp add: world0_def)
  have b2: "Balance (matcher_with []) (world0\<lparr>balance_calls := [tokenA]\<rparr>) (SellToken bid_half)
              = (world0\<lparr>balance_calls := [tokenA, tokenB]\<rparr>, Inr 0)"
    by (simp add: world0_def)
  have ba: "baseAmount 0 bid_half ask_low = 100" by (simp add: baseAmount_def Max_3_def)
  then have nz: "baseAmount 0 bid_half ask_low \<noteq> 0
         \<or> quoteAsBase (quoteAmount 0 bid_half ask_low) ask_low \<noteq> Some 0" by simp
  from crossed_pair_records_no_twin[OF h l rb ra lt t1 t2 b1 b2 nz, of "[]"] h l rb ra ba
  show ?thesis by simp
qed

text \<open>
  Claim C1 as it was stated asks for a twin from every such pair. For the crossed pair of a
  bid at rate 1/2 and an ask at rate 3/8, with aligned tokens and a base candidate of 100,
  the pass ends with no twin and \<open>arbitrage\<close> returns the empty list. The pair of
  scenario 1 of the specification (its ask sells 80 for 30, rate 8/3 by the rate of an
  order) does not even cross, and gives no twin either.
\<close>

theorem crossed_pair_twin_counterexample:
  "bookStep (matcher_with []) world0 [] (book_of [bid_half] [ask_low])
     = Next (world0\<lparr>balance_calls := [tokenA, tokenB]\<rparr>) [] (book_of [] [])
   \<and> arbitrage (matcher_with []) world0 [book_of [bid_half] [ask_low]]
     = Returned (world0\<lparr>balance_calls := [tokenA, tokenB]\<rparr>, [], None)
   \<and> arbitrage (matcher_with []) world0 [book_of [bid_half] [ask_scenario1]]
     = Returned (world0, [], None)"
proof -
  have s1: "bookStep (matcher_with []) world0 [] (book_of [bid_half] [ask_low]) =
      Next (world0\<lparr>balance_calls := [tokenA, tokenB]\<rparr>) [] (book_of [] [])"
    by (simp add: bookStep_def HighestBid_single LowestAsk_single Rate_def
        world0_def quoteAsBase_def quoteAmount_def baseAmount_def Max_3_def big_Div_def)
  have s2: "bookStep m w twins (book_of [] []) = Leave w twins" for m w twins
    by (simp add: bookStep_def HighestBid_def book_of_def)
  have a1: "arbitrage (matcher_with []) world0 [book_of [bid_half] [ask_low]] =
      Returned (world0\<lparr>balance_calls := [tokenA, tokenB]\<rparr>, [], None)"
    by (simp add: arbitrage_def matchLoop.simps[of _ _ _ "book_of [bid_half] [ask_low]"] s1
        matchLoop.simps[of _ _ _ "book_of [] []"] s2)
  have a2: "arbitrage (matcher_with []) world0 [book_of [bid_half] [ask_scenario1]]
      = Returned (world0, [], None)"
    by (simp add: arbitrage_def matchLoop.simps[of _ _ _ "book_of [bid_half] [ask_scenario1]"]
        bookStep_def HighestBid_single LowestAsk_single Rate_def)
  from s1 a1 a2 show ?thesis by simp
qed

text \<open>
  Claim C2, as the code has it. Whatever \<open>arbitrage\<close> returns, the list of twins is
  empty and the error is nil. For books that are all rated, and any answers to the balance
  queries, \<open>arbitrage\<close> does return. A cycle that got its books from \<open>getBooks\<close> and
  came to its end did not take the branch for an arbitrage error: it summed no twin, so the
  total cost is zero and the map of net changes is empty, it reported zero twins, asked the
  wallet nothing and reported a total cost of zero.
\<close>

theorem arbitrage_returns_no_twins:
  "(arbitrage m w books = Returned (w', twins, err) \<longrightarrow> twins = [] \<and> err = None)
   \<and> (list_all rated books \<longrightarrow> (\<exists>w2. arbitrage m w books = Returned (w2, [], None)))
   \<and> (getBooks m w0 = (w, Inr books) \<and> cycle m w0 = Returned w3 \<longrightarrow>
        (\<exists>w2. arbitrage m w books = Returned (w2, [], None)
           \<and> sumTwins [] (0, []) = (0, [])
           \<and> w3 = logf Infof ''total cost: %v wei'' [AInt 0]
                  (reportChanges m
                     (logf Infof ''executed %v twins for cost of %v wei'' [ANat 0] w2) [])
           \<and> wallet_calls w3 = wallet_calls w2))"
proof (intro conjI impI)
  assume a: "arbitrage m w books = Returned (w', twins, err)"
  then obtain r where r: "BookLoop m w [] books = Returned r"
    by (cases "BookLoop m w [] books") (simp_all add: arbitrage_def)
  obtain w1 twins1 where "r = (w1, twins1)" by (cases r)
  with r BookLoop_twins[of m w "[]" books w1 twins1] a
  show "twins = []" and "err = None" by (simp_all add: arbitrage_def)
next
  assume "list_all rated books"
  from BookLoop_rated[OF this, of m w "[]"] obtain w2 where
    "BookLoop m w [] books = Returned (w2, [])" by blast
  then show "\<exists>w2. arbitrage m w books = Returned (w2, [], None)"
    by (simp add: arbitrage_def)
next
  assume c: "getBooks m w0 = (w, Inr books) \<and> cycle m w0 = Returned w3"
  show "\<exists>w2. arbitrage m w books = Returned (w2, [], None)
           \<and> sumTwins [] (0, []) = (0, [])
           \<and> w3 = logf Infof ''total cost: %v wei'' [AInt 0]
                  (reportChanges m
                     (logf Infof ''executed %v twins for cost of %v wei'' [ANat 0] w2) [])
           \<and> wallet_calls w3 = wallet_calls w2"
  proof (cases "BookLoop m w [] books")
    case Panic
    from c have "getBooks m w0 = (w, Inr books)" and "cycle m w0 = Returned w3" by simp_all
    with Panic show ?thesis by (simp add: cycle_def arbitrage_def)
  next
    case (Returned r)
    obtain w2 twins2 where r: "r = (w2, twins2)" by (cases r)
    from Returned r BookLoop_twins[of m w "[]" books w2 twins2] have
      b: "BookLoop m w [] books = Returned (w2, [])" by simp
    then have a: "arbitrage m w books = Returned (w2, [], None)" by (simp add: arbitrage_def)
    from c have "getBooks m w0 = (w, Inr books)" and "cycle m w0 = Returned w3" by simp_all
    with a show ?thesis by (auto simp: cycle_def logf_def)
  qed
qed

theorem arbitrage_returns_no_twins_witness:
  "list_all rated [book_of [bid_half] [ask_low]]
   \<and> getBooks (matcher_with [bid_half, ask_low]) world0
       = (world0\<lparr>orders_calls := Suc 0\<rparr>, Inr [book_of [bid_half] [ask_low]])
   \<and> arbitrage (matcher_with [bid_half, ask_low]) (world0\<lparr>orders_calls := Suc 0\<rparr>)
        [book_of [bid_half] [ask_low]]
       = Returned (world0\<lparr>orders_calls := Suc 0, balance_calls := [tokenA, tokenB]\<rparr>, [], None)
   \<and> cycle (matcher_with [bid_half, ask_low]) world0
       = Returned (world0\<lparr>orders_calls := Suc 0, balance_calls := [tokenA, tokenB],
            logged := [(Infof, ''executed %v twins for cost of %v wei'', [ANat 0]),
                       (Infof, ''total cost: %v wei'', [AInt 0])]\<rparr>)"
proof -
  let ?m = "matcher_with [bid_half, ask_low]"
  let ?w1 = "world0\<lparr>orders_calls := Suc 0\<rparr>"
  let ?w2 = "world0\<lparr>orders_calls := Suc 0, balance_calls := [tokenA, tokenB]\<rparr>"
  let ?w3 = "world0\<lparr>orders_calls := Suc 0, balance_calls := [tokenA, tokenB],
            logged := [(Infof, ''executed %v twins for cost of %v wei'', [ANat 0]),
                       (Infof, ''total cost: %v wei'', [AInt 0])]\<rparr>"
  have r: "list_all rated [book_of [bid_half] [ask_low]]"
    by (simp add: rated_def book_of_def)
  have g: "getBooks ?m world0 = (?w1, Inr [book_of [bid_half] [ask_low]])"
    by (simp add: getBooks_def Orders_def matcher_with_def world0_def placeOrder_def
        AddBid_def AddAsk_def book_of_def)
  have s1: "bookStep ?m w [] (book_of [bid_half] [ask_low])
             = Next (w\<lparr>balance_calls := balance_calls w @ [tokenA, tokenB]\<rparr>) [] (book_of [] [])" for w
    by (simp add: bookStep_def HighestBid_single LowestAsk_single Rate_def
        quoteAsBase_def quoteAmount_def baseAmount_def Max_3_def big_Div_def)
  have s2: "bookStep ?m w [] (book_of [] []) = Leave w []" for w
    by (simp add: bookStep_def HighestBid_def book_of_def)
  have "arbitrage ?m w [book_of [bid_half] [ask_low]]
          = Returned (w\<lparr>balance_calls := balance_calls w @ [tokenA, tokenB]\<rparr>, [], None)" for w
    by (simp add: arbitrage_def matchLoop.simps[of _ _ _ "book_of [bid_half] [ask_low]"] s1
        matchLoop.simps[of _ _ _ "book_of [] []"] s2)
  from this[of ?w1]
  have a: "arbitrage ?m ?w1 [book_of [bid_half] [ask_low]] = Returned (?w2, [], None)"
    by (simp add: world0_def)
  have "cycle ?m world0
          = Returned (logf Infof ''total cost: %v wei'' [AInt 0]
              (logf Infof ''executed %v twins for cost of %v wei'' [ANat 0] ?w2))"
    by (simp add: cycle_def g a)
  then have c: "cycle ?m world0 = Returned ?w3"
    by (simp add: logf_def world0_def)
  from arbitrage_returns_no_twins
         [of ?m ?w1 "[book_of [bid_half] [ask_low]]" ?w2 "[]" None world0 ?w3] r g a c
  show ?thesis by simp
qed

text \<open>
  Claim C2 as it was stated holds for every list of books. For a book whose ask has a zero
  buy amount there is no rate to compare, and \<open>arbitrage\<close> does not return.
\<close>

theorem arbitrage_panics_on_zero_buy_amount:
  "arbitrage (matcher_with []) world0 [book_of [bid_half] [ask_none]] = Panic"
  by (simp add: arbitrage_def matchLoop.simps[of _ _ _ "book_of [bid_half] [ask_none]"]
      bookStep_def HighestBid_single LowestAsk_single Rate_def)

text \<open>
  Claim C5. When the extracted bid and ask do not cross (the bid's rate is less than or
  equal to the ask's), the pass leaves the book at once: the world is as it was, so no
  balance query was made and nothing was logged, the twins are as they were, so no twin
  comes from this pair, the loop on this book returns, and the loop over the books goes
  on with the next book.
\<close>

theorem no_crossing_stops_book:
  assumes "HighestBid book = Inr (bid, book1)" and "LowestAsk book1 = Inr (ask, book2)"
    and "Rate bid = Some bidRate" and "Rate ask = Some askRate" and "bidRate \<le> askRate"
  shows "bookStep m w twins book = Leave w twins
         \<and> matchLoop m w twins book = Returned (w, twins)
         \<and> BookLoop m w twins (book # books) = BookLoop m w twins books"
proof -
  have "bookStep m w twins book = Leave w twins"
    using assms by (simp add: bookStep_def)
  then show ?thesis by (simp add: matchLoop.simps[of m w twins book])
qed

theorem no_crossing_stops_book_witness:
  "HighestBid (book_of [bid_low] [ask_high]) = Inr (bid_low, book_of [] [ask_high])
   \<and> LowestAsk (book_of [] [ask_high]) = Inr (ask_high, book_of [] [])
   \<and> Rate bid_low = Some (3/10) \<and> Rate ask_high = Some (1/2)
   \<and> bookStep (matcher_with []) world0 [] (book_of [bid_low] [ask_high]) = Leave world0 []
   \<and> matchLoop (matcher_with []) world0 [] (book_of [bid_low] [ask_high]) = Returned (world0, [])"
proof -
  have h: "HighestBid (book_of [bid_low] [ask_high]) = Inr (bid_low, book_of [] [ask_high])"
    by (rule HighestBid_single)
  have l: "LowestAsk (book_of [] [ask_high]) = Inr (ask_high, book_of [] [])"
    by (rule LowestAsk_single)
  have rb: "Rate bid_low = Some (3/10)" by (simp add: Rate_def)
  have ra: "Rate ask_high = Some (1/2)" by (simp add: Rate_def)
  have le: "(3/10 :: rat) \<le> 1/2" by simp
  from no_crossing_stops_book[OF h l rb ra le, of "matcher_with []" world0 "[]" "[]"] h l rb ra
  show ?thesis by simp
qed



text \<open>
  Claim C7. When the extracted pair crosses and its tokens do not align (the bid's buy
  token differs from the ask's sell token, or the bid's sell token from the ask's buy
  token), the pass logs one error and leaves the book, whatever orders the book still
  holds: no balance query is made, the twins are as they were, and the loop over the books
  goes on with the books that follow.
\<close>

theorem token_mismatch_abandons_book:
  assumes "HighestBid book = Inr (bid, book1)" and "LowestAsk book1 = Inr (ask, book2)"
    and "Rate bid = Some bidRate" and "Rate ask = Some askRate" and "askRate < bidRate"
    and "BuyToken bid \<noteq> SellToken ask \<or> SellToken bid \<noteq> BuyToken ask"
    and "w' = logf Errorf
               (if BuyToken bid \<noteq> SellToken ask then ''base token mismatch in book: %v''
                else ''quote token mismatch in book: %v'')
               [ABook book2] w"
  shows "bookStep m w twins book = Leave w' twins
         \<and> matchLoop m w twins book = Returned (w', twins)
         \<and> BookLoop m w twins (book # books) = BookLoop m w' twins books
         \<and> balance_calls w' = balance_calls w"
proof -
  have "bookStep m w twins book = Leave w' twins"
    using assms by (auto simp: bookStep_def)
  then show ?thesis using assms(7)
    by (simp add: matchLoop.simps[of m w twins book] logf_def)
qed

theorem token_mismatch_abandons_book_witness:
  "HighestBid (book_of [bid_half, bid_low] [ask_wrong, ask_high])
     = Inr (bid_half, book_of [bid_low] [ask_wrong, ask_high])
   \<and> LowestAsk (book_of [bid_low] [ask_wrong, ask_high])
     = Inr (ask_wrong, book_of [bid_low] [ask_high])
   \<and> Rate bid_half = Some (1/2) \<and> Rate ask_wrong = Some (3/8)
   \<and> SellToken ask_wrong \<noteq> BuyToken bid_half
   \<and> BookLoop (matcher_with []) world0 [] [book_of [bid_half, bid_low] [ask_wrong, ask_high]]
     = Returned (world0\<lparr>logged := [(Errorf, ''base token mismatch in book: %v'',
                                     [ABook (book_of [bid_low] [ask_high])])]\<rparr>, [])"
proof -
  have h: "HighestBid (book_of [bid_half, bid_low] [ask_wrong, ask_high])
     = Inr (bid_half, book_of [bid_low] [ask_wrong, ask_high])"
    by (simp add: HighestBid_def book_of_def Rate_def)
  have l: "LowestAsk (book_of [bid_low] [ask_wrong, ask_high])
     = Inr (ask_wrong, book_of [bid_low] [ask_high])"
    by (simp add: LowestAsk_def book_of_def Rate_def)
  have rb: "Rate bid_half = Some (1/2)" by (simp add: Rate_def)
  have ra: "Rate ask_wrong = Some (3/8)" by (simp add: Rate_def)
  have lt: "(3/8 :: rat) < 1/2" by simp
  have mm: "BuyToken bid_half \<noteq> SellToken ask_wrong \<or> SellToken bid_half \<noteq> BuyToken ask_wrong"
    by simp
  have w: "world0\<lparr>logged := [(Errorf, ''base token mismatch in book: %v'',
                              [ABook (book_of [bid_low] [ask_high])])]\<rparr>
           = logf Errorf
               (if BuyToken bid_half \<noteq> SellToken ask_wrong then ''base token mismatch in book: %v''
                else ''quote token mismatch in book: %v'')
               [ABook (book_of [bid_low] [ask_high])] world0"
    by (simp add: logf_def world0_def)
  from token_mismatch_abandons_book[OF h l rb ra lt mm w, of "matcher_with []" "[]" "[]"] h l rb ra
  show ?thesis by simp
qed

text \<open>
  Claim C8, as the code has it. For a crossed, token-aligned pair with both balances at
  hand, the converted quote candidate is the Euclidean quotient of the quote candidate
  times the ask's sell amount by the ask's buy amount: the remainder is never negative.
  It is the truncating quotient whenever that product is not negative. If the base
  candidate and the converted quote candidate are both zero, the pass logs one warning
  with the two candidates and leaves the book, with the twins as they were; the loop over
  the books goes on with the next book.
\<close>

theorem zero_tradable_abandons_book:
  assumes "HighestBid book = Inr (bid, book1)" and "LowestAsk book1 = Inr (ask, book2)"
    and "Rate bid = Some bidRate" and "Rate ask = Some askRate" and "askRate < bidRate"
    and "BuyToken bid = SellToken ask" and "SellToken bid = BuyToken ask"
    and "Balance m w (BuyToken bid) = (w1, Inr baseAvailable)"
    and "Balance m w1 (SellToken bid) = (w2, Inr quoteAvailable)"
    and "w' = logf Warningf ''can't trade marginal amounts: %v & %v''
                [AInt (baseAmount baseAvailable bid ask), AInt (quoteAmount quoteAvailable bid ask)] w2"
  shows "(\<exists>d r. quoteAsBase (quoteAmount quoteAvailable bid ask) ask = Some d
            \<and> quoteAmount quoteAvailable bid ask * SellAmount ask = BuyAmount ask * d + r
            \<and> 0 \<le> r \<and> r < \<bar>BuyAmount ask\<bar>)
         \<and> (0 \<le> quoteAmount quoteAvailable bid ask * SellAmount ask \<longrightarrow>
              quoteAsBase (quoteAmount quoteAvailable bid ask) ask
                = Some (trunc_div (quoteAmount quoteAvailable bid ask * SellAmount ask) (BuyAmount ask)))
         \<and> (baseAmount baseAvailable bid ask = 0
              \<and> quoteAsBase (quoteAmount quoteAvailable bid ask) ask = Some 0 \<longrightarrow>
              bookStep m w twins book = Leave w' twins
              \<and> matchLoop m w twins book = Returned (w', twins)
              \<and> BookLoop m w twins (book # books) = BookLoop m w' twins books)"
proof (intro conjI impI)
  have nz: "BuyAmount ask \<noteq> 0" by (rule Rate_defined[OF assms(4)])
  from big_Div_Euclidean[OF nz, of "quoteAmount quoteAvailable bid ask * SellAmount ask"]
  show "\<exists>d r. quoteAsBase (quoteAmount quoteAvailable bid ask) ask = Some d
            \<and> quoteAmount quoteAvailable bid ask * SellAmount ask = BuyAmount ask * d + r
            \<and> 0 \<le> r \<and> r < \<bar>BuyAmount ask\<bar>"
    by (simp add: quoteAsBase_def)
  assume "0 \<le> quoteAmount quoteAvailable bid ask * SellAmount ask"
  from big_Div_trunc[OF this nz]
  show "quoteAsBase (quoteAmount quoteAvailable bid ask) ask
          = Some (trunc_div (quoteAmount quoteAvailable bid ask * SellAmount ask) (BuyAmount ask))"
    by (simp add: quoteAsBase_def)
next
  assume z: "baseAmount baseAvailable bid ask = 0
              \<and> quoteAsBase (quoteAmount quoteAvailable bid ask) ask = Some 0"
  have s: "bookStep m w twins book = Leave w' twins"
    using assms z by (auto simp: bookStep_def)
  then show "bookStep m w twins book = Leave w' twins" .
  from s show "matchLoop m w twins book = Returned (w', twins)"
    by (simp add: matchLoop.simps[of m w twins book])
  from s show "BookLoop m w twins (book # books) = BookLoop m w' twins books"
    by (simp add: matchLoop.simps[of m w twins book])
qed

theorem zero_tradable_abandons_book_witness:
  "HighestBid (book_of [bid_neg] [ask_free]) = Inr (bid_neg, book_of [] [ask_free])
   \<and> LowestAsk (book_of [] [ask_free]) = Inr (ask_free, book_of [] [])
   \<and> Rate bid_neg = Some (1/2) \<and> Rate ask_free = Some 0
   \<and> baseAmount 0 bid_neg ask_free = 0 \<and> quoteAmount 0 bid_neg ask_free = 80
   \<and> quoteAsBase 80 ask_free = Some 0
   \<and> trunc_div (80 * 0) 80 = 0
   \<and> bookStep (matcher_with []) world0 [] (book_of [bid_neg] [ask_free])
       = Leave (world0\<lparr>balance_calls := [tokenA, tokenB],
                       logged := [(Warningf, ''can't trade marginal amounts: %v & %v'',
                                   [AInt 0, AInt 80])]\<rparr>) []"
proof -
  have h: "HighestBid (book_of [bid_neg] [ask_free]) = Inr (bid_neg, book_of [] [ask_free])"
    by (rule HighestBid_single)
  have l: "LowestAsk (book_of [] [ask_free]) = Inr (ask_free, book_of [] [])"
    by (rule LowestAsk_single)
  have rb: "Rate bid_neg = Some (1/2)" by (simp add: Rate_def)
  have ra: "Rate ask_free = Some 0" by (simp add: Rate_def)
  have lt: "(0 :: rat) < 1/2" by simp
  have t1: "BuyToken bid_neg = SellToken ask_free" by simp
  have t2: "SellToken bid_neg = BuyToken ask_free" by simp
  have b1: "Balance (matcher_with []) world0 (BuyToken bid_neg)
              = (world0\<lparr>balance_calls := [tokenA]\<rparr>, Inr 0)"
    by (simp add: world0_def)
  have b2: "Balance (matcher_with []) (world0\<lparr>balance_calls := [tokenA]\<rparr>) (SellToken bid_neg)
              = (world0\<lparr>balance_calls := [tokenA, tokenB]\<rparr>, Inr 0)"
    by (simp add: world0_def)
  have ba: "baseAmount 0 bid_neg ask_free = 0" by (simp add: baseAmount_def Max_3_def)
  have qa: "quoteAmount 0 bid_neg ask_free = 80" by (simp add: quoteAmount_def Max_3_def)
  have td: "trunc_div (80 * 0) 80 = 0" by (simp add: trunc_div_def)
  have w: "world0\<lparr>balance_calls := [tokenA, tokenB],
                  logged := [(Warningf, ''can't trade marginal amounts: %v & %v'', [AInt 0, AInt 80])]\<rparr>
           = logf Warningf ''can't trade marginal amounts: %v & %v''
                [AInt (baseAmount 0 bid_neg ask_free), AInt (quoteAmount 0 bid_neg ask_free)]
                (world0\<lparr>balance_calls := [tokenA, tokenB]\<rparr>)"
    by (simp add: logf_def world0_def ba qa)
  from zero_tradable_abandons_book[OF h l rb ra lt t1 t2 b1 b2 w, of "[]" "[]"] h l rb ra ba qa td
  show ?thesis by simp
qed

text \<open>
  Claim C8 as it was stated has the truncating quotient. For a bid of -4 for -2 and an
  ask of -1 for -80, with a base balance of 0 and a quote balance of 1, the pair crosses,
  the tokens align, the base candidate is 0 and the truncating quotient of -1 by -80 is 0;
  the code divides to 1, logs no warning and goes on with the book.
\<close>

theorem truncating_zero_without_warning:
  "HighestBid (book_of [bid_neg] [ask_neg]) = Inr (bid_neg, book_of [] [ask_neg])
   \<and> LowestAsk (book_of [] [ask_neg]) = Inr (ask_neg, book_of [] [])
   \<and> Rate bid_neg = Some (1/2) \<and> Rate ask_neg = Some (1/80)
   \<and> BuyToken bid_neg = SellToken ask_neg \<and> SellToken bid_neg = BuyToken ask_neg
   \<and> baseAmount 0 bid_neg ask_neg = 0
   \<and> quoteAmount 1 bid_neg ask_neg = 1
   \<and> trunc_div (quoteAmount 1 bid_neg ask_neg * SellAmount ask_neg) (BuyAmount ask_neg) = 0
   \<and> quoteAsBase (quoteAmount 1 bid_neg ask_neg) ask_neg = Some 1
   \<and> bookStep matcher_quote_one world0 [] (book_of [bid_neg] [ask_neg])
       = Next (world0\<lparr>balance_calls := [tokenA, tokenB]\<rparr>) [] (book_of [] [])"
proof -
  have ba: "baseAmount 0 bid_neg ask_neg = 0" by (simp add: baseAmount_def Max_3_def)
  have qa: "quoteAmount 1 bid_neg ask_neg = 1" by (simp add: quoteAmount_def Max_3_def)
  have td: "trunc_div (quoteAmount 1 bid_neg ask_neg * SellAmount ask_neg) (BuyAmount ask_neg) = 0"
    by (simp add: qa trunc_div_def)
  have qb: "quoteAsBase (quoteAmount 1 bid_neg ask_neg) ask_neg = Some 1"
    by (simp add: qa quoteAsBase_def big_Div_def)
  have s: "bookStep matcher_quote_one world0 [] (book_of [bid_neg] [ask_neg])
       = Next (world0\<lparr>balance_calls := [tokenA, tokenB]\<rparr>) [] (book_of [] [])"
    by (simp add: bookStep_def HighestBid_single LowestAsk_single Rate_def Balance_def
        matcher_quote_one_def world0_def ba qb)
  from ba qa td qb s show ?thesis
    by (simp add: HighestBid_single LowestAsk_single Rate_def)
qed

text \<open>
  Claim C10. The loop on one book terminates. A pass either leaves the book or reaches its
  end, and then one bid and one ask have been taken out of the book; so the loop is left
  after at most as many further passes as the shorter side has orders: with a bound of one
  more than the length of the shorter side, the bounded loop gives the result of the loop.
\<close>

theorem matchLoop_terminates:
  "(bookStep m w twins book = Next w' twins' book' \<longrightarrow>
      Suc (length (bids book')) = length (bids book)
      \<and> Suc (length (asks book')) = length (asks book))
   \<and> matchFuel (Suc (min (length (bids book)) (length (asks book)))) m w twins book
       = Some (matchLoop m w twins book)"
proof (intro conjI impI)
  assume n: "bookStep m w twins book = Next w' twins' book'"
  from bookStep_Next[OF n] obtain bid ask book1 where
    h: "HighestBid book = Inr (bid, book1)" and l: "LowestAsk book1 = Inr (ask, book')" by blast
  from HighestBid_Inr[OF h] LowestAsk_Inr[OF l]
  show "Suc (length (bids book')) = length (bids book)"
    and "Suc (length (asks book')) = length (asks book)"
    by (auto simp: length_remove1 dest: length_pos_if_in_set)
next
  show "matchFuel (Suc (min (length (bids book)) (length (asks book)))) m w twins book
       = Some (matchLoop m w twins book)"
    by (rule matchFuel_enough) simp
qed

theorem matchLoop_terminates_witness:
  "bookStep (matcher_with []) world0 [] (book_of [bid_half, bid_low] [ask_low])
     = Next (world0\<lparr>balance_calls := [tokenA, tokenB]\<rparr>) [] (book_of [bid_low] [])
   \<and> Suc (length (bids (book_of [bid_low] []))) = length (bids (book_of [bid_half, bid_low] [ask_low]))
   \<and> Suc (length (asks (book_of [bid_low] []))) = length (asks (book_of [bid_half, bid_low] [ask_low]))
   \<and> matchFuel 2 (matcher_with []) world0 [] (book_of [bid_half, bid_low] [ask_low])
       = Some (Returned (world0\<lparr>balance_calls := [tokenA, tokenB]\<rparr>, []))"
proof -
  have n: "bookStep (matcher_with []) world0 [] (book_of [bid_half, bid_low] [ask_low])
     = Next (world0\<lparr>balance_calls := [tokenA, tokenB]\<rparr>) [] (book_of [bid_low] [])"
    by (simp add: bookStep_def HighestBid_def LowestAsk_def book_of_def Rate_def
        world0_def quoteAsBase_def quoteAmount_def baseAmount_def Max_3_def big_Div_def)
  have f: "matchFuel 2 (matcher_with []) world0 [] (book_of [bid_half, bid_low] [ask_low])
       = Some (Returned (world0\<lparr>balance_calls := [tokenA, tokenB]\<rparr>, []))"
    by (simp add: numeral_2_eq_2 n) (simp add: bookStep_def HighestBid_def LowestAsk_def book_of_def)
  from matchLoop_terminates
        [of "matcher_with []" world0 "[]" "book_of [bid_half, bid_low] [ask_low]"
            "world0\<lparr>balance_calls := [tokenA, tokenB]\<rparr>" "[]" "book_of [bid_low] []"] n f
  show ?thesis by simp
qed

section \<open>Claims about the book builder\<close>

text \<open>
  Claim C3. The book builder places each order into exactly one book. Seen as a map from
  token pairs to books, one step of the builder adds the order as a bid to the book
  registered under (buyToken, sellToken) if there is one, else as an ask to the book
  registered under (sellToken, buyToken) if there is one, else registers under
  (buyToken, sellToken) a new book with base buyToken and quote sellToken whose only order
  is this bid. Each step adds exactly the one order to the orders held by the books, and
  when the market returns a list of orders, the books returned are registered under
  distinct pairs, are oriented as their pair says, and hold exactly the orders of the list,
  each as often as the list has it.
\<close>

theorem getBooks_places_each_order_once:
  "map_of (placeOrder bookSet ord) =
     (case map_of bookSet (BuyToken ord, SellToken ord) of
        Some bidBook \<Rightarrow> (map_of bookSet)((BuyToken ord, SellToken ord) \<mapsto> AddBid ord bidBook)
      | None \<Rightarrow>
          (case map_of bookSet (SellToken ord, BuyToken ord) of
             Some askBook \<Rightarrow> (map_of bookSet)((SellToken ord, BuyToken ord) \<mapsto> AddAsk ord askBook)
           | None \<Rightarrow>
               (map_of bookSet)((BuyToken ord, SellToken ord) \<mapsto>
                  \<lparr>Base = BuyToken ord, Quote = SellToken ord, bids = [ord], asks = []\<rparr>)))
   \<and> all_orders (map snd (placeOrder bookSet ord)) = all_orders (map snd bookSet) + {#ord#}
   \<and> (atomic_Orders m (orders_calls w) = Inr orders \<longrightarrow>
        (\<exists>bs. snd (getBooks m w) = Inr (map snd bs) \<and> distinct (map fst bs) \<and> oriented bs
              \<and> all_orders (map snd bs) = mset orders))"
proof (intro conjI impI)
  show "map_of (placeOrder bookSet ord) =
     (case map_of bookSet (BuyToken ord, SellToken ord) of
        Some bidBook \<Rightarrow> (map_of bookSet)((BuyToken ord, SellToken ord) \<mapsto> AddBid ord bidBook)
      | None \<Rightarrow>
          (case map_of bookSet (SellToken ord, BuyToken ord) of
             Some askBook \<Rightarrow> (map_of bookSet)((SellToken ord, BuyToken ord) \<mapsto> AddAsk ord askBook)
           | None \<Rightarrow>
               (map_of bookSet)((BuyToken ord, SellToken ord) \<mapsto>
                  \<lparr>Base = BuyToken ord, Quote = SellToken ord, bids = [ord], asks = []\<rparr>)))"
    by (simp add: placeOrder_def Let_def update_conv' AddBid_def split: option.splits)
  show "all_orders (map snd (placeOrder bookSet ord)) = all_orders (map snd bookSet) + {#ord#}"
    by (rule all_orders_placeOrder)
next
  assume a: "atomic_Orders m (orders_calls w) = Inr orders"
  let ?bs = "foldl placeOrder [] orders"
  have "snd (getBooks m w) = Inr (map snd ?bs)"
    using a by (simp add: getBooks_def Orders_def)
  moreover have "distinct (map fst ?bs)" by (rule distinct_foldl) simp
  moreover have "oriented ?bs" by (rule oriented_foldl) (simp add: oriented_def)
  moreover have "all_orders (map snd ?bs) = mset orders"
    using all_orders_foldl[of "[]" orders] by (simp add: all_orders_def)
  ultimately show "\<exists>bs. snd (getBooks m w) = Inr (map snd bs) \<and> distinct (map fst bs) \<and> oriented bs
              \<and> all_orders (map snd bs) = mset orders"
    by blast
qed

theorem getBooks_places_each_order_once_witness:
  "atomic_Orders (matcher_with [bid_half, ask_low, order_zero_buy]) (orders_calls world0)
     = Inr [bid_half, ask_low, order_zero_buy]
   \<and> (\<exists>bs. snd (getBooks (matcher_with [bid_half, ask_low, order_zero_buy]) world0) = Inr (map snd bs)
        \<and> distinct (map fst bs) \<and> oriented bs
        \<and> all_orders (map snd bs) = mset [bid_half, ask_low, order_zero_buy])"
  using getBooks_places_each_order_once
    [of "[]" bid_half "matcher_with [bid_half, ask_low, order_zero_buy]" world0
        "[bid_half, ask_low, order_zero_buy]"]
  by (simp add: matcher_with_def)

text \<open>
  Claim C6, as the code has it. The book builder rejects nothing: every order the market
  returns, whatever its buy amount, is in a book that is returned, on the bid side or on
  the ask side.
\<close>

theorem getBooks_keeps_every_order:
  assumes "atomic_Orders m (orders_calls w) = Inr orders" and "ord \<in> set orders"
  shows "\<exists>books. snd (getBooks m w) = Inr books
           \<and> (\<exists>book \<in> set books. ord \<in> set (bids book) \<or> ord \<in> set (asks book))"
proof -
  let ?books = "map snd (foldl placeOrder [] orders)"
  have g: "snd (getBooks m w) = Inr ?books"
    using assms(1) by (simp add: getBooks_def Orders_def)
  have "all_orders ?books = mset orders"
    using all_orders_foldl[of "[]" orders] by (simp add: all_orders_def)
  with assms(2) have "ord \<in># sum_list (map orders_of ?books)"
    by (simp add: all_orders_def)
  then obtain book where "book \<in> set ?books" "ord \<in># orders_of book"
    by (induction ?books) auto
  then show ?thesis using g by (auto simp: orders_of_def)
qed

theorem getBooks_keeps_every_order_witness:
  "atomic_Orders (matcher_with [bid_half, ask_low, order_zero_buy]) (orders_calls world0)
     = Inr [bid_half, ask_low, order_zero_buy]
   \<and> order_zero_buy \<in> set [bid_half, ask_low, order_zero_buy]
   \<and> (\<exists>books. snd (getBooks (matcher_with [bid_half, ask_low, order_zero_buy]) world0) = Inr books
           \<and> (\<exists>book \<in> set books. order_zero_buy \<in> set (bids book) \<or> order_zero_buy \<in> set (asks book)))"
  using getBooks_keeps_every_order
    [of "matcher_with [bid_half, ask_low, order_zero_buy]" world0
        "[bid_half, ask_low, order_zero_buy]" order_zero_buy]
  by (simp add: matcher_with_def)

text \<open>
  Claim C6 as it was stated asks for an order with a zero buy amount to be rejected. Given
  one such order, the builder returns a book with that order as its bid.
\<close>

theorem zero_buy_order_not_rejected:
  "BuyAmount order_zero_buy = 0
   \<and> snd (getBooks (matcher_with [order_zero_buy]) world0)
       = Inr [\<lparr>Base = tokenA, Quote = tokenC, bids = [order_zero_buy], asks = []\<rparr>]"
  by (simp add: getBooks_def Orders_def matcher_with_def world0_def placeOrder_def AddBid_def
      order_zero_buy_def)

section \<open>Claims about sizing\<close>

text \<open>
  Claim C4. \<open>Max_3\<close> returns the greatest of its three arguments; the base candidate is the
  greatest of the base balance, the bid's buy amount and the ask's sell amount; the quote
  candidate is the greatest of the quote balance, the bid's sell amount and the ask's buy
  amount.
\<close>

theorem Max_is_greatest_of_three:
  "Max_3 x y z = Max {x, y, z}
   \<and> baseAmount baseAvailable bid ask = Max {baseAvailable, BuyAmount bid, SellAmount ask}
   \<and> quoteAmount quoteAvailable bid ask = Max {quoteAvailable, SellAmount bid, BuyAmount ask}"
proof -
  have m: "Max_3 a b c = Max {a, b, c}" for a b c :: int
    by (auto simp: Max_3_def max_def)
  show ?thesis by (simp only: baseAmount_def quoteAmount_def m)
qed

section \<open>Claims about the scheduling loop\<close>

text \<open>
  Claim C9, as the code has it. When the market fails to return the orders, \<open>getBooks\<close>
  returns an error that carries the market's, and no books; the cycle logs the error and
  is over, and \<open>run\<close> goes on with the next event. When the market is rated, every
  cycle comes to its end whatever the balance queries answer, and \<open>run\<close> exits if the
  stop signal is among its events and is waiting for the next event if it is not. In any
  case \<open>run\<close> exits only when the stop signal is among the events it was given, it
  exits on the stop signal, and a cycle that does not come to its end ended by a run-time
  panic inside \<open>arbitrage\<close>, not by an error.
\<close>

theorem market_failure_abandons_cycle:
  "(atomic_Orders m (orders_calls w) = Inl err \<longrightarrow>
      getBooks m w =
        (w\<lparr>orders_calls := Suc (orders_calls w)\<rparr>,
         Inl (''could not retrieve orders from market ('' @ err @ '')''))
      \<and> run m w (Refresh # evs) =
          run m (logf Errorf ''could not get orders (%v)''
                   [AErr (''could not retrieve orders from market ('' @ err @ '')'')]
                   (w\<lparr>orders_calls := Suc (orders_calls w)\<rparr>)) evs)
   \<and> (rated_market m \<longrightarrow>
        (\<exists>w1. cycle m w = Returned w1)
        \<and> (Done \<in> set evs \<longrightarrow> (\<exists>w2. run m w evs = Exited w2))
        \<and> (Done \<notin> set evs \<longrightarrow> (\<exists>w2. run m w evs = Waiting w2)))
   \<and> (run m w evs = Exited w' \<longrightarrow> Done \<in> set evs)
   \<and> (cycle m w = Panic \<longrightarrow>
        (\<exists>w1 books. getBooks m w = (w1, Inr books) \<and> arbitrage m w1 books = Panic))
   \<and> run m w (Done # evs) = Exited w"
proof (intro conjI impI)
  assume a: "atomic_Orders m (orders_calls w) = Inl err"
  then show g: "getBooks m w =
        (w\<lparr>orders_calls := Suc (orders_calls w)\<rparr>,
         Inl (''could not retrieve orders from market ('' @ err @ '')''))"
    by (simp add: getBooks_def Orders_def)
  then show "run m w (Refresh # evs) =
          run m (logf Errorf ''could not get orders (%v)''
                   [AErr (''could not retrieve orders from market ('' @ err @ '')'')]
                   (w\<lparr>orders_calls := Suc (orders_calls w)\<rparr>)) evs"
    by (simp add: cycle_def)
next
  assume r: "rated_market m"
  then show "\<exists>w1. cycle m w = Returned w1" by (rule cycle_rated_market)
  {
    assume "Done \<in> set evs"
    with run_rated_market[OF r, of evs w] show "\<exists>w2. run m w evs = Exited w2" by blast
  }
  {
    assume "Done \<notin> set evs"
    with run_rated_market[OF r, of evs w] show "\<exists>w2. run m w evs = Waiting w2" by blast
  }
next
  assume "run m w evs = Exited w'"
  then show "Done \<in> set evs" by (rule run_Exited_Done)
next
  assume "cycle m w = Panic"
  then show "\<exists>w1 books. getBooks m w = (w1, Inr books) \<and> arbitrage m w1 books = Panic"
    by (rule cycle_Panic)
next
  show "run m w (Done # evs) = Exited w" by simp
qed

theorem market_failure_abandons_cycle_witness:
  "atomic_Orders matcher_down (orders_calls world0) = Inl ''no connection''
   \<and> getBooks matcher_down world0 =
        (world0\<lparr>orders_calls := 1\<rparr>,
         Inl ''could not retrieve orders from market (no connection)'')
   \<and> run matcher_down world0 [Refresh, Done, Refresh] =
        Exited (world0\<lparr>orders_calls := 1,
                  logged := [(Errorf, ''could not get orders (%v)'',
                     [AErr ''could not retrieve orders from market (no connection)''])]\<rparr>)
   \<and> Done \<in> set [Refresh, Done, Refresh]
   \<and> rated_market (matcher_with [bid_half, ask_low])
   \<and> Done \<notin> set [Refresh, Refresh]
   \<and> (\<exists>w1. cycle (matcher_with [bid_half, ask_low]) world0 = Returned w1)
   \<and> (\<exists>w2. run (matcher_with [bid_half, ask_low]) world0 [Refresh, Refresh] = Waiting w2)"
proof -
  have a: "atomic_Orders matcher_down (orders_calls world0) = Inl ''no connection''"
    by (simp add: matcher_down_def)
  have e: "run matcher_down
             (logf Errorf ''could not get orders (%v)''
                [AErr (''could not retrieve orders from market ('' @ ''no connection'' @ '')'')]
                (world0\<lparr>orders_calls := Suc (orders_calls world0)\<rparr>)) [Done, Refresh]
           = Exited (world0\<lparr>orders_calls := 1,
                  logged := [(Errorf, ''could not get orders (%v)'',
                     [AErr ''could not retrieve orders from market (no connection)''])]\<rparr>)"
    by (simp add: logf_def world0_def)
  from market_failure_abandons_cycle
        [of matcher_down world0 "''no connection''" "[Done, Refresh]"
            "world0\<lparr>orders_calls := 1,
                  logged := [(Errorf, ''could not get orders (%v)'',
                     [AErr ''could not retrieve orders from market (no connection)''])]\<rparr>"] a e
  have g: "getBooks matcher_down world0 =
        (world0\<lparr>orders_calls := Suc (orders_calls world0)\<rparr>,
         Inl (''could not retrieve orders from market ('' @ ''no connection'' @ '')''))"
    and r: "run matcher_down world0 [Refresh, Done, Refresh] =
        Exited (world0\<lparr>orders_calls := 1,
                  logged := [(Errorf, ''could not get orders (%v)'',
                     [AErr ''could not retrieve orders from market (no connection)''])]\<rparr>)"
    by simp_all
  have rm: "rated_market (matcher_with [bid_half, ask_low])"
    by (simp add: rated_market_def matcher_with_def)
  have nd: "Done \<notin> set [Refresh, Refresh]" by simp
  from market_failure_abandons_cycle
        [of "matcher_with [bid_half, ask_low]" world0 "''no connection''" "[Refresh, Refresh]" world0]
       rm nd
  have c: "\<exists>w1. cycle (matcher_with [bid_half, ask_low]) world0 = Returned w1"
    and w: "\<exists>w2. run (matcher_with [bid_half, ask_low]) world0 [Refresh, Refresh] = Waiting w2"
    by blast+
  from a g r rm c w show ?thesis by (simp add: world0_def)
qed

text \<open>
  Claim C9 as it was stated has the stop signal as the only way out of the loop. With a
  market that returns an ask whose buy amount is zero, the first cycle panics inside
  \<open>arbitrage\<close> and the loop is over with no stop signal among its events.
\<close>

theorem panic_ends_run_without_stop:
  "Done \<notin> set [Refresh, Refresh]
   \<and> getBooks (matcher_with [bid_half, ask_none]) world0
       = (world0\<lparr>orders_calls := Suc 0\<rparr>, Inr [book_of [bid_half] [ask_none]])
   \<and> arbitrage (matcher_with [bid_half, ask_none]) (world0\<lparr>orders_calls := Suc 0\<rparr>)
        [book_of [bid_half] [ask_none]] = Panic
   \<and> run (matcher_with [bid_half, ask_none]) world0 [Refresh, Refresh] = Crashed"
proof -
  let ?m = "matcher_with [bid_half, ask_none]"
  have g: "getBooks ?m world0
       = (world0\<lparr>orders_calls := Suc 0\<rparr>, Inr [book_of [bid_half] [ask_none]])"
    by (simp add: getBooks_def Orders_def matcher_with_def world0_def placeOrder_def
        AddBid_def AddAsk_def book_of_def)
  have p: "arbitrage ?m w [book_of [bid_half] [ask_none]] = Panic" for w
    by (simp add: arbitrage_def matchLoop.simps[of _ _ _ "book_of [bid_half] [ask_none]"]
        bookStep_def HighestBid_single LowestAsk_single Rate_def)
  have c: "cycle ?m world0 = Panic"
    by (simp add: cycle_def g p)
  from g p[of "world0\<lparr>orders_calls := Suc 0\<rparr>"] c show ?thesis by simp
qed

end
